theory Spec2Isabelle
  imports Main "HOL-Library.Sublist"
begin

section \<open>The file system seen by the program\<close>

text \<open>
  The program reads the file system through \<^verbatim>\<open>os.getcwd\<close>, \<^verbatim>\<open>os.scandir\<close>,
  \<^verbatim>\<open>os.path.isfile\<close> and the \<^verbatim>\<open>os.stat\<close>/\<^verbatim>\<open>open\<close> inside \<^verbatim>\<open>ZipFile.write\<close>.
  A directory tree holds regular files (with their bytes) and directories (with their
  listing, in the order \<^verbatim>\<open>os.scandir\<close> yields it); each node carries the year of
  its modification time \<^verbatim>\<open>st_mtime\<close>, in local time, which is all \<^verbatim>\<open>ZipFile.write\<close>
  looks at in it. Symbolic links, devices, sockets and permissions are outside the
  model. The process has a working directory, given by its components below the root.

  A \<open>string\<close> holds the bytes of a path. Python holds the path as a \<^verbatim>\<open>str\<close>, decoded
  from these bytes as UTF-8 with \<^verbatim>\<open>surrogateescape\<close> (the file system encoding); the
  section on Python strings below gives the characters of that \<^verbatim>\<open>str\<close>.
\<close>

datatype node = File int string | Dir int "(string \<times> node) list"

type_synonym listing = "(string \<times> node) list"

fun mtime_year :: "node \<Rightarrow> int" where
  "mtime_year (File t c) = t"
| "mtime_year (Dir t es) = t"

record filesystem =
  fs_root :: listing
  fs_root_year :: int
  fs_cwd :: "string list"

definition root_node :: "filesystem \<Rightarrow> node" where
  "root_node fs = Dir (fs_root_year fs) (fs_root fs)"

text \<open>\<^verbatim>\<open>str.split('/')\<close> and \<^verbatim>\<open>'/'.join\<close>.\<close>

fun split_sep :: "string \<Rightarrow> string list" where
  "split_sep [] = [[]]"
| "split_sep (c # cs) =
     (if c = CHR ''/'' then [] # split_sep cs
      else (case split_sep cs of [] \<Rightarrow> [[c]] | w # ws \<Rightarrow> (c # w) # ws))"

fun join_sep :: "string list \<Rightarrow> string" where
  "join_sep [] = []"
| "join_sep [c] = c"
| "join_sep (c # d # cs) = c @ CHR ''/'' # join_sep (d # cs)"

text \<open>
  Path resolution. The stack holds the directory reached (its head) above its ancestors,
  so that \<^verbatim>\<open>..\<close> can step back; at the root \<^verbatim>\<open>..\<close> stays. Empty components and
  \<^verbatim>\<open>.\<close> stay in place, and need a directory to stay in.
\<close>

fun walk :: "node list \<Rightarrow> string list \<Rightarrow> node list option" where
  "walk stk [] = Some stk"
| "walk [] (c # cs) = None"
| "walk (File t x # stk) (c # cs) = None"
| "walk (Dir t es # stk) (c # cs) =
     (if c = [] \<or> c = ''.'' then walk (Dir t es # stk) cs
      else if c = ''..'' then walk (if stk = [] then [Dir t es] else stk) cs
      else (case map_of es c of
              None \<Rightarrow> None
            | Some n \<Rightarrow> walk (n # Dir t es # stk) cs))"

definition cwd_stack :: "filesystem \<Rightarrow> node list option" where
  "cwd_stack fs = walk [root_node fs] (fs_cwd fs)"

text \<open>\<^verbatim>\<open>os.stat(path)\<close>: \<open>None\<close> is the \<^verbatim>\<open>FileNotFoundError\<close>/\<^verbatim>\<open>NotADirectoryError\<close>.\<close>

definition stat :: "filesystem \<Rightarrow> string \<Rightarrow> node option" where
  "stat fs p =
     (if p = [] then None
      else (case (if hd p = CHR ''/'' then Some [root_node fs] else cwd_stack fs) of
              None \<Rightarrow> None
            | Some stk \<Rightarrow>
                (case walk stk (split_sep p) of
                   None \<Rightarrow> None
                 | Some [] \<Rightarrow> None
                 | Some (n # anc) \<Rightarrow> Some n)))"

definition isfile :: "filesystem \<Rightarrow> string \<Rightarrow> bool" where
  "isfile fs p = (case stat fs p of Some (File t c) \<Rightarrow> True | _ \<Rightarrow> False)"

text \<open>\<^verbatim>\<open>os.getcwd()\<close>: the absolute, normalised path of the working directory.\<close>

definition getcwd :: "filesystem \<Rightarrow> string" where
  "getcwd fs =
     (if fs_cwd fs = [] then ''/'' else concat (map (\<lambda>c. CHR ''/'' # c) (fs_cwd fs)))"

text \<open>The listing \<^verbatim>\<open>os.scandir\<close> yields for the working directory.\<close>

definition cwd_listing :: "filesystem \<Rightarrow> listing option" where
  "cwd_listing fs =
     (case cwd_stack fs of Some (Dir t es # anc) \<Rightarrow> Some es | _ \<Rightarrow> None)"

text \<open>
  A \<^verbatim>\<open>DirEntry\<close>: \<^verbatim>\<open>entry.path\<close> is the scanned path joined with the name, a
  separator added unless the scanned path already ends with one.
\<close>

datatype DirEntry = DirEntry (entry_path: string) (entry_is_dir: bool)

definition join_path :: "string \<Rightarrow> string \<Rightarrow> string" where
  "join_path p n = (if p = [] \<or> last p = CHR ''/'' then p @ n else p @ CHR ''/'' # n)"

text \<open>
  \<^verbatim>\<open>_scantree(path)\<close>: the entries of the listing of \<open>path\<close>, directories replaced by
  the entries below them, depth first.
\<close>

fun scantree :: "string \<Rightarrow> listing \<Rightarrow> DirEntry list" where
  "scantree path [] = []"
| "scantree path ((name, File t c) # es) =
     DirEntry (join_path path name) False # scantree path es"
| "scantree path ((name, Dir t sub) # es) =
     scantree (join_path path name) sub @ scantree path es"

section \<open>Exceptions, logging and the external services\<close>

text \<open>
  \<open>ClientError\<close> carries \<^verbatim>\<open>e.response["Error"]["Message"]\<close>; \<open>OSError\<close> is the
  \<^verbatim>\<open>FileNotFoundError\<close> or \<^verbatim>\<open>NotADirectoryError\<close> of a failed \<^verbatim>\<open>os.stat\<close>;
  \<open>ValueError\<close>, \<open>UnicodeEncodeError\<close> and \<open>StructError\<close> (\<^verbatim>\<open>struct.error\<close>) are what
  \<^verbatim>\<open>ZipFile.write\<close> raises for a file it cannot store; \<open>OtherError\<close> is any other
  exception an external call raises.
\<close>

datatype exn =
    ProgramError string
  | ClientError string
  | OSError string
  | IndexError
  | ValueError
  | UnicodeEncodeError
  | StructError
  | OtherError string

datatype level = DEBUG | INFO | WARNING

fun levelno :: "level \<Rightarrow> nat" where
  "levelno DEBUG = 10"
| "levelno INFO = 20"
| "levelno WARNING = 30"

datatype logarg = Str string | Num nat

type_synonym zipfile = "(string \<times> string) list"

text \<open>The requests sent to the orchestrator and to object storage, in order.\<close>

datatype call =
    DescribeApplicationVersions string string
  | UploadFileobj string string zipfile
  | CreateApplicationVersion string string string string string

record state =
  log_level :: level
  log_records :: "(level \<times> string \<times> logarg list) list"
  calls :: "call list"

text \<open>
  The root logger starts at \<^verbatim>\<open>WARNING\<close>; \<^verbatim>\<open>logging.basicConfig(level=...)\<close> sets its
  level; a record below the level is dropped.
\<close>

definition initial_state :: state where
  "initial_state = \<lparr>log_level = WARNING, log_records = [], calls = []\<rparr>"

definition basicConfig :: "level \<Rightarrow> state \<Rightarrow> state" where
  "basicConfig lvl s = s\<lparr>log_level := lvl\<rparr>"

definition logging_log :: "level \<Rightarrow> string \<Rightarrow> logarg list \<Rightarrow> state \<Rightarrow> state" where
  "logging_log lvl msg margs s =
     (if levelno (log_level s) \<le> levelno lvl
      then s\<lparr>log_records := log_records s @ [(lvl, msg, margs)]\<rparr>
      else s)"

definition record_call :: "call \<Rightarrow> state \<Rightarrow> state" where
  "record_call c s = s\<lparr>calls := calls s @ [c]\<rparr>"

text \<open>
  The collaborators the source imports: one response per request of the two boto3
  clients (the upload also gives the byte counts it reports to its callback), the
  predicate \<^verbatim>\<open>gitignore_parser.parse_gitignore\<close> builds from an ignore file, and the
  descriptor number that names the temporary file.
\<close>

record env =
  describe_application_versions :: "string \<Rightarrow> string \<Rightarrow> exn + string list"
  upload_fileobj :: "string \<Rightarrow> string \<Rightarrow> zipfile \<Rightarrow> nat list \<times> (exn + unit)"
  create_application_version ::
    "string \<Rightarrow> string \<Rightarrow> string \<Rightarrow> string \<Rightarrow> string \<Rightarrow> exn + unit"
  parse_gitignore :: "string \<Rightarrow> string \<Rightarrow> bool"
  tmp_fd :: nat

record args =
  arg_application :: string
  arg_label :: string
  arg_s3_bucket :: string
  arg_description :: string
  arg_debug :: bool
  arg_existing_appver_is_error :: bool

section \<open>Python strings\<close>

text \<open>
  The characters of the \<^verbatim>\<open>str\<close> that Python decodes from the bytes of a path: a
  well-formed UTF-8 sequence is one character, and any other byte is one character (a
  lone surrogate). \<open>seq_size\<close> is the length a lead byte announces, \<open>second_ok\<close> the
  range of the byte after it, \<open>head_len\<close> the number of bytes of the first character.
\<close>

definition seq_size :: "nat \<Rightarrow> nat" where
  "seq_size b =
     (if b < 0x80 then 1
      else if 0xC2 \<le> b \<and> b \<le> 0xDF then 2
      else if 0xE0 \<le> b \<and> b \<le> 0xEF then 3
      else if 0xF0 \<le> b \<and> b \<le> 0xF4 then 4
      else 0)"

definition second_ok :: "nat \<Rightarrow> nat \<Rightarrow> bool" where
  "second_ok b0 b1 =
     (if b0 = 0xE0 then 0xA0 \<le> b1 \<and> b1 \<le> 0xBF
      else if b0 = 0xED then 0x80 \<le> b1 \<and> b1 \<le> 0x9F
      else if b0 = 0xF0 then 0x90 \<le> b1 \<and> b1 \<le> 0xBF
      else if b0 = 0xF4 then 0x80 \<le> b1 \<and> b1 \<le> 0x8F
      else 0x80 \<le> b1 \<and> b1 \<le> 0xBF)"

definition continuation :: "char \<Rightarrow> bool" where
  "continuation c = (0x80 \<le> (of_char c :: nat) \<and> (of_char c :: nat) \<le> 0xBF)"

definition well_formed_head :: "string \<Rightarrow> bool" where
  "well_formed_head s =
     (case s of
        [] \<Rightarrow> False
      | c # cs \<Rightarrow>
          (let n = seq_size (of_char c)
           in n = 1 \<or>
              (2 \<le> n \<and> n - 1 \<le> length cs \<and> second_ok (of_char c) (of_char (hd cs))
               \<and> list_all continuation (take (n - 1) cs))))"

definition head_len :: "string \<Rightarrow> nat" where
  "head_len s = (if well_formed_head s then seq_size (of_char (hd s)) else 1)"

function py_chars :: "string \<Rightarrow> string list" where
  "py_chars [] = []"
| "py_chars (c # cs) =
     take (head_len (c # cs)) (c # cs) # py_chars (drop (head_len (c # cs)) (c # cs))"
  by pat_completeness auto
termination
proof (relation "measure length")
  show "wf (measure length)" by simp
next
  fix c cs
  have "0 < head_len (c # cs)"
    by (auto simp: head_len_def well_formed_head_def Let_def)
  then show "(drop (head_len (c # cs)) (c # cs), c # cs) \<in> measure length"
    by (cases "head_len (c # cs)") auto
qed

text \<open>
  \<^verbatim>\<open>len(s)\<close>, the slice \<^verbatim>\<open>s[n:]\<close>, and whether \<^verbatim>\<open>s.encode('utf-8')\<close> succeeds (it
  raises on a lone surrogate).
\<close>

definition py_len :: "string \<Rightarrow> nat" where
  "py_len s = length (py_chars s)"

definition py_slice_from :: "nat \<Rightarrow> string \<Rightarrow> string" where
  "py_slice_from n s = concat (drop n (py_chars s))"

definition encodable :: "string \<Rightarrow> bool" where
  "encodable s = list_all well_formed_head (py_chars s)"

section \<open>The archive builder\<close>

text \<open>\<^verbatim>\<open>posixpath.normpath\<close>, its loop over the components first.\<close>

fun normpath_comps :: "bool \<Rightarrow> string list \<Rightarrow> string list \<Rightarrow> string list" where
  "normpath_comps initial_slashes new_comps [] = new_comps"
| "normpath_comps initial_slashes new_comps (c # comps) =
     (if c = [] \<or> c = ''.'' then normpath_comps initial_slashes new_comps comps
      else if c \<noteq> ''..'' \<or> (\<not> initial_slashes \<and> new_comps = [])
              \<or> (new_comps \<noteq> [] \<and> last new_comps = ''..'')
      then normpath_comps initial_slashes (new_comps @ [c]) comps
      else if new_comps \<noteq> [] then normpath_comps initial_slashes (butlast new_comps) comps
      else normpath_comps initial_slashes new_comps comps)"

definition normpath :: "string \<Rightarrow> string" where
  "normpath p =
     (if p = [] then ''.''
      else
        (let initial_slashes =
               (if take 1 p = ''/''
                then (if take 2 p = ''//'' \<and> take 3 p \<noteq> ''///'' then 2 else 1)
                else (0::nat));
             comps = normpath_comps (initial_slashes \<noteq> 0) [] (split_sep p);
             r = replicate initial_slashes CHR ''/'' @ join_sep comps
         in if r = [] then ''.'' else r))"

text \<open>
  The entry name \<^verbatim>\<open>ZipInfo.from_file\<close> gives a file: the normalised path without
  its leading separators (\<^verbatim>\<open>arcname[0]\<close> raises when nothing is left).
\<close>

definition arcname_of :: "string \<Rightarrow> exn + string" where
  "arcname_of filename =
     (let a = dropWhile (\<lambda>c. c = CHR ''/'') (normpath filename)
      in if a = [] then Inl IndexError else Inr a)"

text \<open>
  \<^verbatim>\<open>zipf.write(filename)\<close>, with \<^verbatim>\<open>strict_timestamps\<close> at its default as the source
  leaves it. \<^verbatim>\<open>ZipInfo.from_file\<close> looks the file up from the working directory, takes
  the entry name (a directory's ends with a separator) and raises \<^verbatim>\<open>ValueError\<close> for
  a modification time before 1980. Writing the header then raises
  \<^verbatim>\<open>UnicodeEncodeError\<close> when the entry name has no UTF-8 encoding, and
  \<^verbatim>\<open>struct.error\<close> when the year is past 2107 and the date does not fit its 16 bits.
  Otherwise the entry is appended with the file's bytes; a directory's entry holds
  nothing.
\<close>

definition zip_write :: "filesystem \<Rightarrow> zipfile \<Rightarrow> string \<Rightarrow> exn + zipfile" where
  "zip_write fs zipf filename =
     (case stat fs filename of
        None \<Rightarrow> Inl (OSError filename)
      | Some n \<Rightarrow>
          (case arcname_of filename of
             Inl e \<Rightarrow> Inl e
           | Inr a \<Rightarrow>
               (let entry_name = (case n of File t c \<Rightarrow> a | Dir t es \<Rightarrow> a @ ''/'')
                in if mtime_year n < 1980 then Inl ValueError
                   else if \<not> encodable entry_name then Inl UnicodeEncodeError
                   else if 2107 < mtime_year n then Inl StructError
                   else Inr (zipf @ [(entry_name,
                                      case n of File t c \<Rightarrow> c | Dir t es \<Rightarrow> [])]))))"

text \<open>Lines 53 to 61 of \<^verbatim>\<open>_add_files_to_zipfile\<close>: the choice of the ignore predicate.\<close>

definition ignore_matches :: "env \<Rightarrow> filesystem \<Rightarrow> state \<Rightarrow> (string \<Rightarrow> bool) \<times> state" where
  "ignore_matches env fs s =
     (if isfile fs ''.ebignore''
      then (parse_gitignore env ''.ebignore'', logging_log INFO ''Using .ebignore'' [] s)
      else if isfile fs ''.gitignore''
      then (parse_gitignore env ''.gitignore'', logging_log INFO ''Using .gitignore'' [] s)
      else (\<lambda>x. False, logging_log INFO ''Couldn't find .ebignore or .gitignore'' [] s))"

text \<open>Lines 64 to 70: the loop over the entries \<^verbatim>\<open>_scantree\<close> yields.\<close>

fun add_entries ::
  "(string \<Rightarrow> bool) \<Rightarrow> filesystem \<Rightarrow> string \<Rightarrow> DirEntry list \<Rightarrow> zipfile \<Rightarrow> state
   \<Rightarrow> (exn + zipfile) \<times> state" where
  "add_entries ign fs base_dir [] zipf s = (Inr zipf, s)"
| "add_entries ign fs base_dir (entry # entries) zipf s =
     (let relative_path = py_slice_from (py_len base_dir + 1) (entry_path entry)
      in if ign (entry_path entry)
         then add_entries ign fs base_dir entries zipf
                (logging_log DEBUG ''Ignoring %s based on .ebignore'' [Str relative_path] s)
         else
           (let s1 = logging_log DEBUG ''Adding %s to zipfile'' [Str relative_path] s
            in case zip_write fs zipf relative_path of
                 Inl e \<Rightarrow> (Inl e, s1)
               | Inr zipf1 \<Rightarrow> add_entries ign fs base_dir entries zipf1 s1))"

text \<open>
  \<^verbatim>\<open>_add_files_to_zipfile\<close>. \<^verbatim>\<open>os.getcwd()\<close> raises when the working directory does
  not exist any more.
\<close>

definition add_files_to_zipfile ::
  "env \<Rightarrow> filesystem \<Rightarrow> zipfile \<Rightarrow> state \<Rightarrow> (exn + zipfile) \<times> state" where
  "add_files_to_zipfile env fs zipf s =
     (case ignore_matches env fs s of
        (ign, s1) \<Rightarrow>
          (case cwd_listing fs of
             None \<Rightarrow> (Inl (OSError ''getcwd''), s1)
           | Some es \<Rightarrow>
               (let base_dir = getcwd fs
                in case add_entries ign fs base_dir (scantree base_dir es) zipf s1 of
                     (Inl e, s2) \<Rightarrow> (Inl e, s2)
                   | (Inr zipf1, s2) \<Rightarrow>
                       (Inr zipf1,
                        logging_log INFO ''Created zipfile with %s items''
                          [Num (length zipf1)] s2))))"

text \<open>
  The temporary file handed to the upload: its name (a descriptor number) and the
  archive written to it. The archive is kept as its entries, name and bytes, in the
  order written; the deflate encoding of the bytes is not modelled, nor is the read
  position that \<^verbatim>\<open>seek(0)\<close> resets.
\<close>

record fileobj =
  fileobj_name :: nat
  fileobj_zip :: zipfile

text \<open>
  The context manager \<^verbatim>\<open>create_zipfile\<close>, applied to the body of its \<^verbatim>\<open>with\<close>
  block. An exception in the builder or in the body leaves through the enclosing
  \<^verbatim>\<open>with\<close> statements, past the log lines that follow them.
\<close>

definition create_zipfile ::
  "env \<Rightarrow> filesystem \<Rightarrow> (fileobj \<Rightarrow> state \<Rightarrow> (exn + 'a) \<times> state) \<Rightarrow> state
   \<Rightarrow> (exn + 'a) \<times> state" where
  "create_zipfile env fs body s =
     (let s1 = logging_log DEBUG ''Created temporary file (fd: %s)'' [Num (tmp_fd env)] s
      in case add_files_to_zipfile env fs [] s1 of
           (Inl e, s2) \<Rightarrow> (Inl e, s2)
         | (Inr zipf, s2) \<Rightarrow>
             (let s3 = logging_log DEBUG ''Closed zipfile'' [] s2
              in case body \<lparr>fileobj_name = tmp_fd env, fileobj_zip = zipf\<rparr> s3 of
                   (Inl e, s4) \<Rightarrow> (Inl e, s4)
                 | (Inr r, s4) \<Rightarrow> (Inr r, logging_log DEBUG ''Closed raw file'' [] s4)))"

section \<open>The publisher and the existence check\<close>

definition log_upload_progress :: "nat \<Rightarrow> state \<Rightarrow> state" where
  "log_upload_progress bytes s =
     logging_log INFO ''S3 upload has uploaded %s bytes...'' [Num bytes] s"

definition upload_appver ::
  "env \<Rightarrow> fileobj \<Rightarrow> string \<Rightarrow> string \<Rightarrow> string \<Rightarrow> state \<Rightarrow> (exn + string) \<times> state" where
  "upload_appver env fobj application label s3_bucket s =
     (let s3_key = application @ ''/'' @ label @ ''.zip'';
          s1 = logging_log INFO ''Uploading appver with source fd %s to s3://%s/%s''
                 [Num (fileobj_name fobj), Str s3_bucket, Str s3_key] s;
          s2 = record_call (UploadFileobj s3_bucket s3_key (fileobj_zip fobj)) s1
      in case upload_fileobj env s3_bucket s3_key (fileobj_zip fobj) of
           (progress, r) \<Rightarrow>
             (let s3 = fold log_upload_progress progress s2
              in case r of
                   Inl e \<Rightarrow> (Inl e, s3)
                 | Inr u \<Rightarrow> (Inr s3_key, s3)))"

definition create_appver ::
  "env \<Rightarrow> string \<Rightarrow> string \<Rightarrow> string \<Rightarrow> string \<Rightarrow> string \<Rightarrow> bool \<Rightarrow> state
   \<Rightarrow> (exn + unit) \<times> state" where
  "create_appver env application s3_bucket s3_key label description existing_appver_is_error s =
     (let s1 = logging_log INFO ''Creating application version'' [] s;
          s2 = record_call
                 (CreateApplicationVersion application label description s3_bucket s3_key) s1
      in case create_application_version env application label description s3_bucket s3_key of
           Inr u \<Rightarrow> (Inr (), s2)
         | Inl (ClientError msg) \<Rightarrow>
             (if msg = ''Application Version '' @ label @ '' already exists.''
              then (if existing_appver_is_error
                    then (Inl (ClientError msg), s2)
                    else (Inr (),
                          logging_log WARNING
                            (''The application version '' @ CHR 0x27 # label
                               @ CHR 0x27 # '' was created before we could upload it.'')
                            [] s2))
              else (Inr (), s2))
         | Inl e \<Rightarrow> (Inl e, s2))"

definition appver_exists :: "env \<Rightarrow> string \<Rightarrow> string \<Rightarrow> state \<Rightarrow> (exn + bool) \<times> state" where
  "appver_exists env application label s =
     (let s1 = record_call (DescribeApplicationVersions application label) s
      in case describe_application_versions env application label of
           Inl e \<Rightarrow> (Inl e, s1)
         | Inr versions \<Rightarrow> (if length versions > 0 then (Inr True, s1) else (Inr False, s1)))"

section \<open>The pipeline\<close>

definition main :: "env \<Rightarrow> filesystem \<Rightarrow> args \<Rightarrow> state \<Rightarrow> (exn + unit) \<times> state" where
  "main env fs a s =
     (let s1 = basicConfig (if arg_debug a then DEBUG else INFO) s
      in case appver_exists env (arg_application a) (arg_label a) s1 of
           (Inl e, s2) \<Rightarrow> (Inl e, s2)
         | (Inr True, s2) \<Rightarrow>
             (if arg_existing_appver_is_error a
              then (Inl (ProgramError
                          (''Application version '' @ CHR 0x27 # arg_label a
                             @ CHR 0x27 # '' already exists!'')), s2)
              else (Inr (),
                    logging_log INFO ''Application version '%s' already exists.''
                      [Str (arg_label a)] s2))
         | (Inr False, s2) \<Rightarrow>
             (case create_zipfile env fs
                     (\<lambda>fobj. upload_appver env fobj (arg_application a) (arg_label a)
                                (arg_s3_bucket a)) s2 of
                (Inl e, s3) \<Rightarrow> (Inl e, s3)
              | (Inr s3_key, s3) \<Rightarrow>
                  (case create_appver env (arg_application a) (arg_s3_bucket a) s3_key
                          (arg_label a) (arg_description a)
                          (arg_existing_appver_is_error a) s3 of
                     (Inl e, s4) \<Rightarrow> (Inl e, s4)
                   | (Inr u, s4) \<Rightarrow> (Inr (), logging_log INFO ''All done!'' [] s4))))"

text \<open>
  The \<^verbatim>\<open>__main__\<close> block and the interpreter around it: a \<^verbatim>\<open>ProgramError\<close> is
  printed and the process exits with 1; any other exception is not caught, so the
  interpreter prints its traceback and the exit status is 1; otherwise the status is 0.
\<close>

record process_result =
  exit_code :: int
  stdout :: "string list"
  traceback :: "exn option"
  final_state :: state

definition script :: "env \<Rightarrow> filesystem \<Rightarrow> args \<Rightarrow> process_result" where
  "script env fs a =
     (case main env fs a initial_state of
        (Inr u, s) \<Rightarrow> \<lparr>exit_code = 0, stdout = [], traceback = None, final_state = s\<rparr>
      | (Inl (ProgramError m), s) \<Rightarrow>
          \<lparr>exit_code = 1, stdout = [m], traceback = None, final_state = s\<rparr>
      | (Inl e, s) \<Rightarrow> \<lparr>exit_code = 1, stdout = [], traceback = Some e, final_state = s\<rparr>)"

section \<open>Well-formed trees and the files below a directory\<close>






section \<open>What a run shows\<close>

text \<open>
  The archive the builder produces and the predicate it loads; neither depends on the
  logger's state (\<open>add_files_archive_of\<close>, \<open>ignore_matches_fst\<close> below).
\<close>

definition archive_of :: "env \<Rightarrow> filesystem \<Rightarrow> exn + zipfile" where
  "archive_of env fs = fst (add_files_to_zipfile env fs [] initial_state)"

definition ignore_rule :: "env \<Rightarrow> filesystem \<Rightarrow> string \<Rightarrow> bool" where
  "ignore_rule env fs = fst (ignore_matches env fs initial_state)"

definition s3_key_of :: "string \<Rightarrow> string \<Rightarrow> string" where
  "s3_key_of application label = application @ ''/'' @ label @ ''.zip''"

text \<open>
  The result of \<open>main\<close> and the requests it sends, as they follow from the responses of
  the services and from the archive (\<open>main_run\<close> below).
\<close>

definition already_exists_message :: "string \<Rightarrow> string" where
  "already_exists_message lbl =
     ''Application version '' @ CHR 0x27 # lbl @ CHR 0x27 # '' already exists!''"

definition register_outcome :: "env \<Rightarrow> args \<Rightarrow> exn + unit" where
  "register_outcome env a =
     (case create_application_version env (arg_application a) (arg_label a) (arg_description a)
             (arg_s3_bucket a) (s3_key_of (arg_application a) (arg_label a)) of
        Inr u \<Rightarrow> Inr ()
      | Inl (ClientError msg) \<Rightarrow>
          (if msg = ''Application Version '' @ arg_label a @ '' already exists.''
                \<and> arg_existing_appver_is_error a
           then Inl (ClientError msg) else Inr ())
      | Inl e \<Rightarrow> Inl e)"

definition main_outcome :: "env \<Rightarrow> filesystem \<Rightarrow> args \<Rightarrow> exn + unit" where
  "main_outcome env fs a =
     (case describe_application_versions env (arg_application a) (arg_label a) of
        Inl e \<Rightarrow> Inl e
      | Inr vs \<Rightarrow>
          (if vs \<noteq> []
           then (if arg_existing_appver_is_error a
                 then Inl (ProgramError (already_exists_message (arg_label a)))
                 else Inr ())
           else (case archive_of env fs of
                   Inl e \<Rightarrow> Inl e
                 | Inr z \<Rightarrow>
                     (case snd (upload_fileobj env (arg_s3_bucket a)
                                  (s3_key_of (arg_application a) (arg_label a)) z) of
                        Inl e \<Rightarrow> Inl e
                      | Inr u \<Rightarrow> register_outcome env a))))"

definition main_calls :: "env \<Rightarrow> filesystem \<Rightarrow> args \<Rightarrow> call list" where
  "main_calls env fs a =
     DescribeApplicationVersions (arg_application a) (arg_label a) #
     (case describe_application_versions env (arg_application a) (arg_label a) of
        Inl e \<Rightarrow> []
      | Inr vs \<Rightarrow>
          (if vs \<noteq> [] then []
           else (case archive_of env fs of
                   Inl e \<Rightarrow> []
                 | Inr z \<Rightarrow>
                     UploadFileobj (arg_s3_bucket a)
                       (s3_key_of (arg_application a) (arg_label a)) z #
                     (case snd (upload_fileobj env (arg_s3_bucket a)
                                  (s3_key_of (arg_application a) (arg_label a)) z) of
                        Inl e \<Rightarrow> []
                      | Inr u \<Rightarrow>
                          [CreateApplicationVersion (arg_application a) (arg_label a)
                             (arg_description a) (arg_s3_bucket a)
                             (s3_key_of (arg_application a) (arg_label a))]))))"

section \<open>Example inputs\<close>

definition example_args :: "bool \<Rightarrow> bool \<Rightarrow> args" where
  "example_args dbg strict =
     \<lparr>arg_application = ''myapp'', arg_label = ''v42'', arg_s3_bucket = ''releases'',
      arg_description = ''build 42'', arg_debug = dbg,
      arg_existing_appver_is_error = strict\<rparr>"

definition example_env ::
  "(exn + string list) \<Rightarrow> (exn + unit) \<Rightarrow> (string \<Rightarrow> string \<Rightarrow> bool) \<Rightarrow> env" where
  "example_env described created rules =
     \<lparr>describe_application_versions = (\<lambda>a l. described),
      upload_fileobj = (\<lambda>b k z. ([length z], Inr ())),
      create_application_version = (\<lambda>a l d b k. created),
      parse_gitignore = rules,
      tmp_fd = 3\<rparr>"

definition project_listing :: listing where
  "project_listing =
     [(''.ebignore'', File 2023 ''*.log''),
      (''.gitignore'', File 2023 ''lib''),
      (''app.py'', File 2024 ''run()''),
      (''lib'', Dir 2024 [(''util.py'', File 2024 ''x = 1''), (''cache'', Dir 2022 [])]),
      (''debug.log'', File 2024 ''boot'')]"

definition project_fs :: filesystem where
  "project_fs = \<lparr>fs_root = [(''srv'', Dir 2020 [(''app'', Dir 2024 project_listing)])],
                 fs_root_year = 2020, fs_cwd = [''srv'', ''app'']\<rparr>"

definition root_fs :: filesystem where
  "root_fs = \<lparr>fs_root = [(''app.py'', File 2024 ''run()'')], fs_root_year = 2024,
             fs_cwd = []\<rparr>"

definition empty_fs :: filesystem where
  "empty_fs = \<lparr>fs_root = [(''srv'', Dir 2024 [])], fs_root_year = 2020, fs_cwd = [''srv'']\<rparr>"

definition gitignore_fs :: filesystem where
  "gitignore_fs =
     \<lparr>fs_root = [(''srv'', Dir 2024 [(''.gitignore'', File 2023 ''lib''),
                                      (''app.py'', File 2024 ''run()'')])],
      fs_root_year = 2020, fs_cwd = [''srv'']\<rparr>"



definition absolute_rules :: "string \<Rightarrow> string \<Rightarrow> bool" where
  "absolute_rules f p =
     (if f = ''.ebignore'' then p = ''/srv/app/debug.log'' else p = ''/srv/app/lib/util.py'')"


definition no_rules :: "string \<Rightarrow> string \<Rightarrow> bool" where
  "no_rules f p = False"

definition all_rules :: "string \<Rightarrow> string \<Rightarrow> bool" where
  "all_rules f p = True"

section \<open>Slicing after a separator\<close>










section \<open>Paths and lookups\<close>






















section \<open>Logging does not reach the results\<close>

lemma calls_logging_log: "calls (logging_log l m xs s) = calls s"
  by (simp add: logging_log_def)

lemma calls_fold_progress: "calls (fold log_upload_progress ps s) = calls s"
  by (induction ps arbitrary: s) (simp_all add: log_upload_progress_def calls_logging_log)

lemma ignore_matches_fst: "fst (ignore_matches env fs s) = ignore_rule env fs"
  by (simp add: ignore_matches_def ignore_rule_def)

lemma ignore_matches_calls: "calls (snd (ignore_matches env fs s)) = calls s"
  by (simp add: ignore_matches_def calls_logging_log)

lemma add_entries_calls: "calls (snd (add_entries ign fs b es z s)) = calls s"
  by (induction es arbitrary: z s) (simp_all add: Let_def calls_logging_log split: sum.splits)

lemma add_entries_fst:
  "fst (add_entries ign fs b es z s) = fst (add_entries ign fs b es z t)"
  by (induction es arbitrary: z s t) (simp_all add: Let_def split: sum.splits)

lemma add_files_calls: "calls (snd (add_files_to_zipfile env fs z s)) = calls s"
proof -
  obtain ign s1 where im: "ignore_matches env fs s = (ign, s1)" by (cases "ignore_matches env fs s")
  with ignore_matches_calls[of env fs s] have c1: "calls s1 = calls s" by simp
  show ?thesis
  proof (cases "cwd_listing fs")
    case None
    then show ?thesis by (simp add: add_files_to_zipfile_def im c1)
  next
    case (Some es)
    obtain r s2 where ae: "add_entries ign fs (getcwd fs) (scantree (getcwd fs) es) z s1 = (r, s2)"
      by (cases "add_entries ign fs (getcwd fs) (scantree (getcwd fs) es) z s1")
    with add_entries_calls[of ign fs "getcwd fs" "scantree (getcwd fs) es" z s1]
    have "calls s2 = calls s" by (simp add: c1)
    then show ?thesis
      by (cases r) (simp_all add: add_files_to_zipfile_def im Some ae calls_logging_log)
  qed
qed

lemma add_files_fst_entries:
  "cwd_listing fs = Some es \<Longrightarrow>
   fst (add_files_to_zipfile env fs z s) =
   fst (add_entries (ignore_rule env fs) fs (getcwd fs) (scantree (getcwd fs) es) z s)"
proof -
  assume cl: "cwd_listing fs = Some es"
  obtain ign s1 where im: "ignore_matches env fs s = (ign, s1)" by (cases "ignore_matches env fs s")
  with ignore_matches_fst[of env fs s] have ign: "ign = ignore_rule env fs" by simp
  obtain r s2 where ae: "add_entries ign fs (getcwd fs) (scantree (getcwd fs) es) z s1 = (r, s2)"
    by (cases "add_entries ign fs (getcwd fs) (scantree (getcwd fs) es) z s1")
  have "fst (add_files_to_zipfile env fs z s) = r"
    by (cases r) (simp_all add: add_files_to_zipfile_def im cl ae)
  also have "r = fst (add_entries ign fs (getcwd fs) (scantree (getcwd fs) es) z s1)"
    by (simp add: ae)
  also have "\<dots> = fst (add_entries ign fs (getcwd fs) (scantree (getcwd fs) es) z s)"
    by (rule add_entries_fst)
  finally show ?thesis by (simp add: ign)
qed

lemma add_files_fst_none:
  "cwd_listing fs = None \<Longrightarrow> fst (add_files_to_zipfile env fs z s) = Inl (OSError ''getcwd'')"
  by (simp add: add_files_to_zipfile_def split: prod.splits)

lemma add_files_fst:
  "fst (add_files_to_zipfile env fs z s) = fst (add_files_to_zipfile env fs z t)"
  by (cases "cwd_listing fs")
    (auto simp: add_files_fst_none add_files_fst_entries intro: add_entries_fst)

lemma add_files_archive_of: "fst (add_files_to_zipfile env fs [] s) = archive_of env fs"
  unfolding archive_of_def by (rule add_files_fst)

lemma upload_appver_fst:
  "fst (upload_appver env fobj app lbl b s) =
   (case snd (upload_fileobj env b (s3_key_of app lbl) (fileobj_zip fobj)) of
      Inl e \<Rightarrow> Inl e | Inr u \<Rightarrow> Inr (s3_key_of app lbl))"
  by (simp add: upload_appver_def s3_key_of_def Let_def split: prod.splits sum.splits)

lemma upload_appver_calls:
  "calls (snd (upload_appver env fobj app lbl b s)) =
   calls s @ [UploadFileobj b (s3_key_of app lbl) (fileobj_zip fobj)]"
  by (simp add: upload_appver_def s3_key_of_def Let_def calls_fold_progress record_call_def
      calls_logging_log split: prod.splits sum.splits)

lemma create_appver_calls:
  "calls (snd (create_appver env app b k lbl d strict s)) =
   calls s @ [CreateApplicationVersion app lbl d b k]"
  by (simp add: create_appver_def Let_def record_call_def calls_logging_log
      split: sum.splits exn.splits)

lemma create_appver_fst:
  "fst (create_appver env app b k lbl d strict s) =
   (case create_application_version env app lbl d b k of
      Inr u \<Rightarrow> Inr ()
    | Inl (ClientError msg) \<Rightarrow>
        (if msg = ''Application Version '' @ lbl @ '' already exists.'' \<and> strict
         then Inl (ClientError msg) else Inr ())
    | Inl e \<Rightarrow> Inl e)"
  by (simp add: create_appver_def Let_def split: sum.splits exn.splits)

lemma appver_exists_fst:
  "fst (appver_exists env app lbl s) =
   (case describe_application_versions env app lbl of
      Inl e \<Rightarrow> Inl e | Inr vs \<Rightarrow> Inr (vs \<noteq> []))"
  by (simp add: appver_exists_def Let_def split: sum.splits)

lemma appver_exists_calls:
  "calls (snd (appver_exists env app lbl s)) = calls s @ [DescribeApplicationVersions app lbl]"
  by (simp add: appver_exists_def Let_def record_call_def split: sum.splits)

lemma create_zipfile_upload_fst:
  "fst (create_zipfile env fs (\<lambda>fobj. upload_appver env fobj app lbl b) s) =
   (case archive_of env fs of
      Inl e \<Rightarrow> Inl e
    | Inr z \<Rightarrow>
       (case snd (upload_fileobj env b (s3_key_of app lbl) z) of
          Inl e \<Rightarrow> Inl e | Inr u \<Rightarrow> Inr (s3_key_of app lbl)))"
proof -
  let ?s1 = "logging_log DEBUG ''Created temporary file (fd: %s)'' [Num (tmp_fd env)] s"
  obtain r s2 where af: "add_files_to_zipfile env fs [] ?s1 = (r, s2)"
    by (cases "add_files_to_zipfile env fs [] ?s1")
  with add_files_archive_of[of env fs ?s1] have r: "archive_of env fs = r" by simp
  show ?thesis
  proof (cases r)
    case (Inl e)
    then show ?thesis by (simp add: create_zipfile_def af r)
  next
    case (Inr z)
    let ?f = "\<lparr>fileobj_name = tmp_fd env, fileobj_zip = z\<rparr>"
    let ?s3 = "logging_log DEBUG ''Closed zipfile'' [] s2"
    obtain x s4 where up: "upload_appver env ?f app lbl b ?s3 = (x, s4)"
      by (cases "upload_appver env ?f app lbl b ?s3")
    with upload_appver_fst[of env ?f app lbl b ?s3]
    have x: "x = (case snd (upload_fileobj env b (s3_key_of app lbl) z) of
      Inl e \<Rightarrow> Inl e | Inr u \<Rightarrow> Inr (s3_key_of app lbl))" by simp
    show ?thesis
      by (cases x) (simp_all add: create_zipfile_def af Inr r up x[symmetric])
  qed
qed

lemma create_zipfile_upload_calls:
  "calls (snd (create_zipfile env fs (\<lambda>fobj. upload_appver env fobj app lbl b) s)) =
   (case archive_of env fs of
      Inl e \<Rightarrow> calls s
    | Inr z \<Rightarrow> calls s @ [UploadFileobj b (s3_key_of app lbl) z])"
proof -
  let ?s1 = "logging_log DEBUG ''Created temporary file (fd: %s)'' [Num (tmp_fd env)] s"
  obtain r s2 where af: "add_files_to_zipfile env fs [] ?s1 = (r, s2)"
    by (cases "add_files_to_zipfile env fs [] ?s1")
  with add_files_archive_of[of env fs ?s1] have r: "archive_of env fs = r" by simp
  from af add_files_calls[of env fs "[]" ?s1] have c2: "calls s2 = calls s"
    by (simp add: calls_logging_log)
  show ?thesis
  proof (cases r)
    case (Inl e)
    then show ?thesis by (simp add: create_zipfile_def af r c2)
  next
    case (Inr z)
    let ?f = "\<lparr>fileobj_name = tmp_fd env, fileobj_zip = z\<rparr>"
    let ?s3 = "logging_log DEBUG ''Closed zipfile'' [] s2"
    obtain x s4 where up: "upload_appver env ?f app lbl b ?s3 = (x, s4)"
      by (cases "upload_appver env ?f app lbl b ?s3")
    with upload_appver_calls[of env ?f app lbl b ?s3]
    have "calls s4 = calls s @ [UploadFileobj b (s3_key_of app lbl) z]"
      by (simp add: calls_logging_log c2)
    then show ?thesis
      by (cases x) (simp_all add: create_zipfile_def af Inr r up calls_logging_log)
  qed
qed

section \<open>The run as a function of the responses\<close>

lemma main_run:
  "fst (main env fs a s) = main_outcome env fs a \<and>
   calls (snd (main env fs a s)) = calls s @ main_calls env fs a"
proof -
  let ?app = "arg_application a" and ?lbl = "arg_label a" and ?b = "arg_s3_bucket a"
  let ?s1 = "basicConfig (if arg_debug a then DEBUG else INFO) s"
  have c1: "calls ?s1 = calls s" by (simp add: basicConfig_def)
  obtain x s2 where ae: "appver_exists env ?app ?lbl ?s1 = (x, s2)"
    by (cases "appver_exists env ?app ?lbl ?s1")
  from ae appver_exists_fst[of env ?app ?lbl ?s1]
  have x: "x = (case describe_application_versions env ?app ?lbl of
                  Inl e \<Rightarrow> Inl e | Inr vs \<Rightarrow> Inr (vs \<noteq> []))" by simp
  from ae appver_exists_calls[of env ?app ?lbl ?s1] c1
  have c2: "calls s2 = calls s @ [DescribeApplicationVersions ?app ?lbl]" by simp
  show ?thesis
  proof (cases "describe_application_versions env ?app ?lbl")
    case (Inl e)
    with x have "x = Inl e" by simp
    then show ?thesis
      by (simp add: main_def ae c2 main_outcome_def main_calls_def Inl)
  next
    case (Inr vs)
    show ?thesis
    proof (cases "vs = []")
      case False
      with x Inr have "x = Inr True" by simp
      then show ?thesis
        using False
        by (simp add: main_def ae c2 main_outcome_def main_calls_def Inr calls_logging_log
            already_exists_message_def)
    next
      case True
      with x Inr have xf: "x = Inr False" by simp
      let ?body = "\<lambda>fobj. upload_appver env fobj ?app ?lbl ?b"
      obtain y s3 where cz: "create_zipfile env fs ?body s2 = (y, s3)"
        by (cases "create_zipfile env fs ?body s2")
      from cz create_zipfile_upload_fst[of env fs ?app ?lbl ?b s2]
      have y: "y = (case archive_of env fs of
                      Inl e \<Rightarrow> Inl e
                    | Inr z \<Rightarrow>
                       (case snd (upload_fileobj env ?b (s3_key_of ?app ?lbl) z) of
                          Inl e \<Rightarrow> Inl e | Inr u \<Rightarrow> Inr (s3_key_of ?app ?lbl)))" by simp
      from cz create_zipfile_upload_calls[of env fs ?app ?lbl ?b s2]
      have c3: "calls s3 = (case archive_of env fs of
                      Inl e \<Rightarrow> calls s2
                    | Inr z \<Rightarrow> calls s2 @ [UploadFileobj ?b (s3_key_of ?app ?lbl) z])" by simp
      show ?thesis
      proof (cases y)
        case (Inl e)
        have "fst (main env fs a s) = Inl e \<and> calls (snd (main env fs a s)) = calls s3"
          by (simp add: main_def ae xf cz Inl)
        moreover have "main_outcome env fs a = Inl e"
          using y Inl by (auto simp: main_outcome_def Inr True split: sum.splits)
        moreover have "calls s3 = calls s @ main_calls env fs a"
          using y Inl c3 c2 by (auto simp: main_calls_def Inr True split: sum.splits)
        ultimately show ?thesis by simp
      next
        case (Inr k)
        with y obtain z where z: "archive_of env fs = Inr z"
          and up: "snd (upload_fileobj env ?b (s3_key_of ?app ?lbl) z) = Inr ()"
          and k: "k = s3_key_of ?app ?lbl"
          by (auto split: sum.splits)
        let ?d = "arg_description a" and ?st = "arg_existing_appver_is_error a"
        obtain w s4 where ca: "create_appver env ?app ?b k ?lbl ?d ?st s3 = (w, s4)"
          by (cases "create_appver env ?app ?b k ?lbl ?d ?st s3")
        from ca create_appver_fst[of env ?app ?b k ?lbl ?d ?st s3]
        have w: "w = register_outcome env a" by (simp add: register_outcome_def k)
        from ca create_appver_calls[of env ?app ?b k ?lbl ?d ?st s3] c3 z c2
        have c4: "calls s4 = calls s @ [DescribeApplicationVersions ?app ?lbl,
             UploadFileobj ?b (s3_key_of ?app ?lbl) z,
             CreateApplicationVersion ?app ?lbl ?d ?b (s3_key_of ?app ?lbl)]"
          by (simp add: k)
        have "fst (main env fs a s) = w \<and> calls (snd (main env fs a s)) = calls s4"
          by (cases w) (simp_all add: main_def ae xf cz Inr ca calls_logging_log)
        moreover have "main_outcome env fs a = w"
          by (simp add: main_outcome_def \<open>describe_application_versions env ?app ?lbl = Inr vs\<close>
              True z up w)
        moreover have "calls s4 = calls s @ main_calls env fs a"
          by (simp add: c4 main_calls_def \<open>describe_application_versions env ?app ?lbl = Inr vs\<close>
              True z up)
        ultimately show ?thesis by simp
      qed
    qed
  qed
qed

lemma script_run:
  "exit_code (script env fs a) = (case main_outcome env fs a of Inr u \<Rightarrow> 0 | Inl e \<Rightarrow> 1) \<and>
   stdout (script env fs a) =
     (case main_outcome env fs a of Inl (ProgramError m) \<Rightarrow> [m] | _ \<Rightarrow> []) \<and>
   traceback (script env fs a) =
     (case main_outcome env fs a of
        Inr u \<Rightarrow> None | Inl (ProgramError m) \<Rightarrow> None | Inl e \<Rightarrow> Some e) \<and>
   calls (final_state (script env fs a)) = main_calls env fs a"
proof -
  obtain r s where m: "main env fs a initial_state = (r, s)"
    by (cases "main env fs a initial_state")
  with main_run[of env fs a initial_state]
  have r: "main_outcome env fs a = r" and c: "calls s = main_calls env fs a"
    by (simp_all add: initial_state_def)
  show ?thesis
    by (simp add: script_def m r c split: sum.splits exn.splits)
qed

section \<open>The example inputs evaluated\<close>

lemma project_archive_absolute:
  "archive_of (example_env d c absolute_rules) project_fs =
     Inr [(''.ebignore'', ''*.log''), (''.gitignore'', ''lib''), (''app.py'', ''run()''),
          (''lib/util.py'', ''x = 1'')]"
  unfolding archive_of_def by code_simp

lemma example_args_simps:
  "arg_application (example_args dbg strict) = ''myapp''"
  "arg_label (example_args dbg strict) = ''v42''"
  "arg_s3_bucket (example_args dbg strict) = ''releases''"
  "arg_description (example_args dbg strict) = ''build 42''"
  "arg_debug (example_args dbg strict) = dbg"
  "arg_existing_appver_is_error (example_args dbg strict) = strict"
  by (simp_all add: example_args_def)

lemma example_env_simps:
  "describe_application_versions (example_env d c r) = (\<lambda>a l. d)"
  "upload_fileobj (example_env d c r) = (\<lambda>b k z. ([length z], Inr ()))"
  "create_application_version (example_env d c r) = (\<lambda>a l d b k. c)"
  "parse_gitignore (example_env d c r) = r"
  "tmp_fd (example_env d c r) = 3"
  by (simp_all add: example_env_def)

section \<open>Further facts for the claims\<close>



lemma add_entries_all_ignored:
  "list_all (\<lambda>e. ign (entry_path e)) es \<Longrightarrow> fst (add_entries ign fs b es z s) = Inr z"
  by (induction es arbitrary: s) (simp_all add: Let_def)

lemma script_final_state: "final_state (script env fs a) = snd (main env fs a initial_state)"
  by (simp add: script_def split: prod.splits sum.splits exn.splits)

lemma log_level_logging_log: "log_level (logging_log l m xs s) = log_level s"
  by (simp add: logging_log_def)

lemma log_records_logging_log:
  "log_records (logging_log l m xs s) =
     (if levelno (log_level s) \<le> levelno l then log_records s @ [(l, m, xs)]
      else log_records s)"
  by (simp add: logging_log_def)

lemma empty_fs_main:
  "main (example_env (Inr []) (Inr ()) absolute_rules) empty_fs (example_args dbg False) s =
   (Inr (),
    logging_log INFO ''All done!'' []
     (record_call
       (CreateApplicationVersion ''myapp'' ''v42'' ''build 42'' ''releases'' ''myapp/v42.zip'')
       (logging_log INFO ''Creating application version'' []
         (logging_log DEBUG ''Closed raw file'' []
           (logging_log INFO ''S3 upload has uploaded %s bytes...'' [Num 0]
             (record_call (UploadFileobj ''releases'' ''myapp/v42.zip'' [])
               (logging_log INFO ''Uploading appver with source fd %s to s3://%s/%s''
                 [Num 3, Str ''releases'', Str ''myapp/v42.zip'']
                 (logging_log DEBUG ''Closed zipfile'' []
                   (logging_log INFO ''Created zipfile with %s items'' [Num 0]
                     (logging_log INFO ''Couldn't find .ebignore or .gitignore'' []
                       (logging_log DEBUG ''Created temporary file (fd: %s)'' [Num 3]
                         (record_call (DescribeApplicationVersions ''myapp'' ''v42'')
                           (basicConfig (if dbg then DEBUG else INFO) s)))))))))))))"
proof -
  let ?e = "example_env (Inr []) (Inr ()) absolute_rules"
  have ae: "appver_exists ?e ''myapp'' ''v42'' s =
      (Inr False, record_call (DescribeApplicationVersions ''myapp'' ''v42'') s)" for s
    by (simp add: appver_exists_def example_env_simps Let_def)
  have nf: "\<not> isfile empty_fs ''.ebignore''" "\<not> isfile empty_fs ''.gitignore''"
    by code_simp+
  have cl: "cwd_listing empty_fs = Some []" by code_simp
  have af: "add_files_to_zipfile ?e empty_fs [] s =
     (Inr [], logging_log INFO ''Created zipfile with %s items'' [Num 0]
        (logging_log INFO ''Couldn't find .ebignore or .gitignore'' [] s))" for s
    by (simp add: add_files_to_zipfile_def ignore_matches_def nf cl)
  have up: "upload_appver ?e \<lparr>fileobj_name = 3, fileobj_zip = []\<rparr> ''myapp'' ''v42''
              ''releases'' s =
     (Inr ''myapp/v42.zip'',
      logging_log INFO ''S3 upload has uploaded %s bytes...'' [Num 0]
        (record_call (UploadFileobj ''releases'' ''myapp/v42.zip'' [])
          (logging_log INFO ''Uploading appver with source fd %s to s3://%s/%s''
             [Num 3, Str ''releases'', Str ''myapp/v42.zip''] s)))" for s
    by (simp add: upload_appver_def example_env_simps Let_def log_upload_progress_def)
  have cz: "create_zipfile ?e empty_fs
              (\<lambda>fobj. upload_appver ?e fobj ''myapp'' ''v42'' ''releases'') s =
     (Inr ''myapp/v42.zip'',
      logging_log DEBUG ''Closed raw file'' []
       (logging_log INFO ''S3 upload has uploaded %s bytes...'' [Num 0]
        (record_call (UploadFileobj ''releases'' ''myapp/v42.zip'' [])
          (logging_log INFO ''Uploading appver with source fd %s to s3://%s/%s''
             [Num 3, Str ''releases'', Str ''myapp/v42.zip'']
             (logging_log DEBUG ''Closed zipfile'' []
               (logging_log INFO ''Created zipfile with %s items'' [Num 0]
                 (logging_log INFO ''Couldn't find .ebignore or .gitignore'' []
                   (logging_log DEBUG ''Created temporary file (fd: %s)'' [Num 3] s))))))))"
    for s
    by (simp add: create_zipfile_def af up example_env_simps Let_def)
  have ca: "create_appver ?e ''myapp'' ''releases'' ''myapp/v42.zip'' ''v42'' ''build 42''
              False s =
     (Inr (),
      record_call
       (CreateApplicationVersion ''myapp'' ''v42'' ''build 42'' ''releases'' ''myapp/v42.zip'')
       (logging_log INFO ''Creating application version'' [] s))" for s
    by (simp add: create_appver_def example_env_simps Let_def)
  show ?thesis
    by (simp add: main_def example_args_simps ae cz ca Let_def)
qed

lemma empty_fs_log_debug:
  "length (log_records (snd (main (example_env (Inr []) (Inr ()) absolute_rules) empty_fs
                       (example_args True False) initial_state))) = 9"
  unfolding empty_fs_main
  by (simp add: log_records_logging_log log_level_logging_log record_call_def basicConfig_def
      initial_state_def)

lemma empty_fs_log_info:
  "length (log_records (snd (main (example_env (Inr []) (Inr ()) absolute_rules) empty_fs
                       (example_args False False) initial_state))) = 6"
  unfolding empty_fs_main
  by (simp add: log_records_logging_log log_level_logging_log record_call_def basicConfig_def
      initial_state_def)


section \<open>The claims\<close>

text \<open>
  C1. The archive is to hold every regular file below the working directory under its
  path relative to that directory. Run from the root directory, the code takes the
  relative path of \<^verbatim>\<open>/app.py\<close> by cutting \<^verbatim>\<open>len("/") + 1\<close> characters, which gives
  \<^verbatim>\<open>pp.py\<close>; \<^verbatim>\<open>zipf.write\<close> does not find that file and raises, the run ends with
  the traceback, and nothing is uploaded.
\<close>

theorem root_directory_archive_fails:
  "getcwd root_fs = ''/'' \<and>
   scantree (getcwd root_fs) (fs_root root_fs) = [DirEntry ''/app.py'' False] \<and>
   fst (add_files_to_zipfile (example_env (Inr []) (Inr ()) no_rules) root_fs []
          initial_state) = Inl (OSError ''pp.py'') \<and>
   traceback (script (example_env (Inr []) (Inr ()) no_rules) root_fs
                (example_args False False)) = Some (OSError ''pp.py'') \<and>
   calls (final_state (script (example_env (Inr []) (Inr ()) no_rules) root_fs
                         (example_args False False))) =
     [DescribeApplicationVersions ''myapp'' ''v42'']"
  by code_simp

text \<open>
  C2, as stated: in strict mode a conflict found before the upload or reported at
  registration ends the process with code 1 and a printed message, without a stack
  trace. At registration the code re-raises the \<^verbatim>\<open>ClientError\<close>, which the
  \<^verbatim>\<open>__main__\<close> block does not catch: the run below ends with the traceback and
  prints nothing.
\<close>

theorem strict_race_counterexample:
  "arg_existing_appver_is_error (example_args False True) \<and>
   traceback
     (script (example_env (Inr []) (Inl (ClientError ''Application Version v42 already exists.''))
                absolute_rules) project_fs (example_args False True)) =
     Some (ClientError ''Application Version v42 already exists.'') \<and>
   stdout
     (script (example_env (Inr []) (Inl (ClientError ''Application Version v42 already exists.''))
                absolute_rules) project_fs (example_args False True)) = []"
proof -
  let ?m = "''Application Version v42 already exists.''"
  let ?e = "example_env (Inr []) (Inl (ClientError ?m)) absolute_rules"
  let ?a = "example_args False True"
  have "main_outcome ?e project_fs ?a = Inl (ClientError ?m)"
    by (simp add: main_outcome_def register_outcome_def project_archive_absolute
        example_args_simps example_env_simps)
  with script_run[of ?e project_fs ?a] show ?thesis
    by (simp add: example_args_simps)
qed


text \<open>
  C2, amended: in strict mode, a version found by the existence check ends the process
  with code 1, the message printed and no stack trace; a conflict reported at
  registration (after the archive was built and uploaded) leaves as the uncaught
  \<^verbatim>\<open>ClientError\<close>: exit status 1, the traceback, nothing printed.
\<close>

theorem strict_conflict_exit:
  assumes "arg_existing_appver_is_error a"
  shows
    "(describe_application_versions env (arg_application a) (arg_label a) = Inr vs \<and> vs \<noteq> []
        \<longrightarrow> exit_code (script env fs a) = 1
          \<and> stdout (script env fs a) =
              [''Application version '' @ CHR 0x27 # arg_label a
                 @ CHR 0x27 # '' already exists!'']
          \<and> traceback (script env fs a) = None)
     \<and> (describe_application_versions env (arg_application a) (arg_label a) = Inr []
          \<and> fst (add_files_to_zipfile env fs [] initial_state) = Inr z
          \<and> snd (upload_fileobj env (arg_s3_bucket a)
                  (arg_application a @ ''/'' @ arg_label a @ ''.zip'') z) = Inr ()
          \<and> create_application_version env (arg_application a) (arg_label a)
                (arg_description a) (arg_s3_bucket a)
                (arg_application a @ ''/'' @ arg_label a @ ''.zip'') =
              Inl (ClientError (''Application Version '' @ arg_label a @ '' already exists.''))
        \<longrightarrow> exit_code (script env fs a) = 1
          \<and> stdout (script env fs a) = []
          \<and> traceback (script env fs a) =
              Some (ClientError
                     (''Application Version '' @ arg_label a @ '' already exists.'')))"
proof (intro conjI impI)
  assume h: "describe_application_versions env (arg_application a) (arg_label a) = Inr vs
             \<and> vs \<noteq> []"
  with assms have mo: "main_outcome env fs a =
      Inl (ProgramError (already_exists_message (arg_label a)))"
    by (simp add: main_outcome_def)
  from mo script_run[of env fs a]
  show "exit_code (script env fs a) = 1"
    and "stdout (script env fs a) =
           [''Application version '' @ CHR 0x27 # arg_label a
              @ CHR 0x27 # '' already exists!'']"
    and "traceback (script env fs a) = None"
    by (simp_all add: already_exists_message_def)
next
  let ?m = "''Application Version '' @ arg_label a @ '' already exists.''"
  assume h: "describe_application_versions env (arg_application a) (arg_label a) = Inr []
          \<and> fst (add_files_to_zipfile env fs [] initial_state) = Inr z
          \<and> snd (upload_fileobj env (arg_s3_bucket a)
                  (arg_application a @ ''/'' @ arg_label a @ ''.zip'') z) = Inr ()
          \<and> create_application_version env (arg_application a) (arg_label a)
                (arg_description a) (arg_s3_bucket a)
                (arg_application a @ ''/'' @ arg_label a @ ''.zip'') = Inl (ClientError ?m)"
  then have ro: "register_outcome env a = Inl (ClientError ?m)"
    using assms by (simp add: register_outcome_def s3_key_of_def)
  from h have "main_outcome env fs a = register_outcome env a"
    by (simp add: main_outcome_def archive_of_def s3_key_of_def)
  with ro have mo: "main_outcome env fs a = Inl (ClientError ?m)" by simp
  from mo script_run[of env fs a]
  show "exit_code (script env fs a) = 1"
    and "stdout (script env fs a) = []"
    and "traceback (script env fs a) = Some (ClientError ?m)"
    by simp_all
qed

theorem strict_conflict_exit_witness:
  "exit_code (script (example_env (Inr [''v42'']) (Inr ()) absolute_rules) project_fs
                (example_args False True)) = 1
   \<and> stdout (script (example_env (Inr [''v42'']) (Inr ()) absolute_rules) project_fs
                (example_args False True)) = [''Application version 'v42' already exists!'']
   \<and> traceback (script (example_env (Inr [''v42'']) (Inr ()) absolute_rules) project_fs
                (example_args False True)) = None
   \<and> exit_code
        (script (example_env (Inr [])
                   (Inl (ClientError ''Application Version v42 already exists.''))
                   absolute_rules) project_fs (example_args False True)) = 1
   \<and> traceback
        (script (example_env (Inr [])
                   (Inl (ClientError ''Application Version v42 already exists.''))
                   absolute_rules) project_fs (example_args False True)) =
       Some (ClientError ''Application Version v42 already exists.'')"
proof -
  let ?a = "example_args False True"
  let ?e1 = "example_env (Inr [''v42'']) (Inr ()) absolute_rules"
  let ?m = "''Application Version v42 already exists.''"
  let ?e2 = "example_env (Inr []) (Inl (ClientError ?m)) absolute_rules"
  let ?z = "[(''.ebignore'', ''*.log''), (''.gitignore'', ''lib''), (''app.py'', ''run()''),
             (''lib/util.py'', ''x = 1'')]"
  have strict: "arg_existing_appver_is_error ?a" by (simp add: example_args_simps)
  have z: "fst (add_files_to_zipfile ?e2 project_fs [] initial_state) = Inr ?z"
    using project_archive_absolute[of "Inr []" "Inl (ClientError ?m)"]
    by (simp add: archive_of_def)
  from strict_conflict_exit[OF strict, of ?e1 "[''v42'']" project_fs]
  have "exit_code (script ?e1 project_fs ?a) = 1
      \<and> stdout (script ?e1 project_fs ?a) = [''Application version 'v42' already exists!'']
      \<and> traceback (script ?e1 project_fs ?a) = None"
    by (simp add: example_args_simps example_env_simps)
  moreover from strict_conflict_exit[OF strict, of ?e2 _ project_fs ?z] z
  have "exit_code (script ?e2 project_fs ?a) = 1
      \<and> traceback (script ?e2 project_fs ?a) = Some (ClientError ?m)"
    by (simp add: example_args_simps example_env_simps)
  ultimately show ?thesis by simp
qed




text \<open>
  C4. The registration step is to let every orchestrator error other than the
  "already exists" conflict out unchanged. A \<^verbatim>\<open>ClientError\<close> with any other message
  matches neither branch of the handler and is dropped: \<^verbatim>\<open>create_appver\<close> returns
  normally and the run ends with status 0.
\<close>

theorem other_client_error_is_swallowed:
  "fst (create_appver
          (example_env (Inr []) (Inl (ClientError ''No Application named 'myapp' found.''))
             absolute_rules)
          ''myapp'' ''releases'' ''myapp/v42.zip'' ''v42'' ''build 42'' False initial_state) =
     Inr ()
   \<and> exit_code
        (script (example_env (Inr []) (Inl (ClientError ''No Application named 'myapp' found.''))
                   absolute_rules) project_fs (example_args False False)) = 0
   \<and> traceback
        (script (example_env (Inr []) (Inl (ClientError ''No Application named 'myapp' found.''))
                   absolute_rules) project_fs (example_args False False)) = None"
proof -
  let ?m = "''No Application named 'myapp' found.''"
  let ?e = "example_env (Inr []) (Inl (ClientError ?m)) absolute_rules"
  let ?a = "example_args False False"
  have c: "fst (create_appver ?e ''myapp'' ''releases'' ''myapp/v42.zip'' ''v42'' ''build 42''
                  False initial_state) = Inr ()"
    by (simp add: create_appver_fst example_env_simps)
  have "main_outcome ?e project_fs ?a = Inr ()"
    by (simp add: main_outcome_def register_outcome_def project_archive_absolute
        example_args_simps example_env_simps)
  with script_run[of ?e project_fs ?a] c show ?thesis by simp
qed

text \<open>
  C5. When the existence check finds a version with the requested label and strict mode
  is off, the run is the request to describe the versions, one log line, and exit
  status 0: no temporary file, no archive, no upload, no registration, whatever the
  working directory holds. A second run with the same application and label is such a
  run once the orchestrator lists the version the first one registered.
\<close>

theorem existing_version_is_noop:
  assumes "describe_application_versions env (arg_application a) (arg_label a) = Inr vs"
    and "vs \<noteq> []" and "\<not> arg_existing_appver_is_error a"
  shows "script env fs a =
     \<lparr>exit_code = 0, stdout = [], traceback = None,
      final_state =
        \<lparr>log_level = (if arg_debug a then DEBUG else INFO),
         log_records = [(INFO, ''Application version '%s' already exists.'', [Str (arg_label a)])],
         calls = [DescribeApplicationVersions (arg_application a) (arg_label a)]\<rparr>\<rparr>"
  using assms
  by (simp add: script_def main_def appver_exists_def Let_def initial_state_def basicConfig_def
      record_call_def logging_log_def)

theorem existing_version_is_noop_witness:
  "script (example_env (Inr [''v42'']) (Inr ()) absolute_rules) project_fs
     (example_args False False) =
   \<lparr>exit_code = 0, stdout = [], traceback = None,
    final_state =
      \<lparr>log_level = INFO,
       log_records = [(INFO, ''Application version '%s' already exists.'', [Str ''v42''])],
       calls = [DescribeApplicationVersions ''myapp'' ''v42'']\<rparr>\<rparr>"
proof -
  let ?e = "example_env (Inr [''v42'']) (Inr ()) absolute_rules"
  let ?a = "example_args False False"
  have h1: "describe_application_versions ?e (arg_application ?a) (arg_label ?a) = Inr [''v42'']"
    by (simp add: example_env_simps)
  have h2: "[''v42''] \<noteq> ([] :: string list)" by simp
  have h3: "\<not> arg_existing_appver_is_error ?a" by (simp add: example_args_simps)
  from existing_version_is_noop[OF h1 h2 h3, of project_fs] show ?thesis
    by (simp add: example_args_simps)
qed

text \<open>
  C6. When a version with the requested label exists and strict mode is set, the process
  prints the message and exits with code 1; the request to describe the versions is
  the only one sent, and no archive is built.
\<close>

theorem strict_existing_version_exits_1:
  assumes "describe_application_versions env (arg_application a) (arg_label a) = Inr vs"
    and "vs \<noteq> []" and "arg_existing_appver_is_error a"
  shows "script env fs a =
     \<lparr>exit_code = 1,
      stdout = [''Application version '' @ CHR 0x27 # arg_label a
                  @ CHR 0x27 # '' already exists!''],
      traceback = None,
      final_state =
        \<lparr>log_level = (if arg_debug a then DEBUG else INFO),
         log_records = [],
         calls = [DescribeApplicationVersions (arg_application a) (arg_label a)]\<rparr>\<rparr>"
  using assms
  by (simp add: script_def main_def appver_exists_def Let_def initial_state_def basicConfig_def
      record_call_def)

theorem strict_existing_version_exits_1_witness:
  "script (example_env (Inr [''v42'']) (Inr ()) absolute_rules) project_fs
     (example_args False True) =
   \<lparr>exit_code = 1, stdout = [''Application version 'v42' already exists!''],
    traceback = None,
    final_state =
      \<lparr>log_level = INFO, log_records = [],
       calls = [DescribeApplicationVersions ''myapp'' ''v42'']\<rparr>\<rparr>"
proof -
  let ?e = "example_env (Inr [''v42'']) (Inr ()) absolute_rules"
  let ?a = "example_args False True"
  have h1: "describe_application_versions ?e (arg_application ?a) (arg_label ?a) = Inr [''v42'']"
    by (simp add: example_env_simps)
  have h2: "[''v42''] \<noteq> ([] :: string list)" by simp
  have h3: "arg_existing_appver_is_error ?a" by (simp add: example_args_simps)
  from strict_existing_version_exits_1[OF h1 h2 h3, of project_fs] show ?thesis
    by (simp add: example_args_simps)
qed

text \<open>
  C7. The storage key is the application name, a slash, the label and \<^verbatim>\<open>.zip\<close>, a
  function of the two names alone. The upload is sent under this key, the upload step
  returns it when the upload succeeds, and the requests of a whole run are an initial
  part of: describe, upload under the key, register with the key.
\<close>

theorem storage_key_derivation:
  "fst (upload_appver env fobj app lbl bucket s) =
     (case snd (upload_fileobj env bucket (app @ ''/'' @ lbl @ ''.zip'') (fileobj_zip fobj)) of
        Inl e \<Rightarrow> Inl e
      | Inr u \<Rightarrow> Inr (app @ ''/'' @ lbl @ ''.zip''))
   \<and> calls (snd (upload_appver env fobj app lbl bucket s)) =
       calls s @ [UploadFileobj bucket (app @ ''/'' @ lbl @ ''.zip'') (fileobj_zip fobj)]
   \<and> (\<exists>z. prefix (calls (final_state (script env fs a)))
             [DescribeApplicationVersions (arg_application a) (arg_label a),
              UploadFileobj (arg_s3_bucket a)
                (arg_application a @ ''/'' @ arg_label a @ ''.zip'') z,
              CreateApplicationVersion (arg_application a) (arg_label a) (arg_description a)
                (arg_s3_bucket a) (arg_application a @ ''/'' @ arg_label a @ ''.zip'')])"
proof (intro conjI)
  show "fst (upload_appver env fobj app lbl bucket s) =
     (case snd (upload_fileobj env bucket (app @ ''/'' @ lbl @ ''.zip'') (fileobj_zip fobj)) of
        Inl e \<Rightarrow> Inl e
      | Inr u \<Rightarrow> Inr (app @ ''/'' @ lbl @ ''.zip''))"
    by (rule upload_appver_fst[unfolded s3_key_of_def])
  show "calls (snd (upload_appver env fobj app lbl bucket s)) =
       calls s @ [UploadFileobj bucket (app @ ''/'' @ lbl @ ''.zip'') (fileobj_zip fobj)]"
    by (rule upload_appver_calls[unfolded s3_key_of_def])
  have k: "s3_key_of (arg_application a) (arg_label a) =
           arg_application a @ ''/'' @ arg_label a @ ''.zip''"
    by (simp add: s3_key_of_def)
  have c: "calls (final_state (script env fs a)) = main_calls env fs a"
    using script_run[of env fs a] by simp
  show "\<exists>z. prefix (calls (final_state (script env fs a)))
             [DescribeApplicationVersions (arg_application a) (arg_label a),
              UploadFileobj (arg_s3_bucket a)
                (arg_application a @ ''/'' @ arg_label a @ ''.zip'') z,
              CreateApplicationVersion (arg_application a) (arg_label a) (arg_description a)
                (arg_s3_bucket a) (arg_application a @ ''/'' @ arg_label a @ ''.zip'')]"
    unfolding c k[symmetric]
    by (auto simp: main_calls_def split: sum.splits)
qed

theorem storage_key_derivation_witness:
  "fst (upload_appver (example_env (Inr []) (Inr ()) absolute_rules)
          \<lparr>fileobj_name = 3, fileobj_zip = []\<rparr> ''myapp'' ''v42'' ''releases'' initial_state) =
     Inr ''myapp/v42.zip''"
proof -
  let ?e = "example_env (Inr []) (Inr ()) absolute_rules"
  from storage_key_derivation[of ?e "\<lparr>fileobj_name = 3, fileobj_zip = []\<rparr>" "''myapp''"
      "''v42''" "''releases''" initial_state project_fs "example_args False False"]
  show ?thesis by (simp add: example_env_simps)
qed

text \<open>
  C8. The ignore predicate is the one parsed from \<^verbatim>\<open>.ebignore\<close> when that is a file
  in the working directory; otherwise the one parsed from \<^verbatim>\<open>.gitignore\<close> when that
  is a file; otherwise the predicate that is false everywhere. When \<^verbatim>\<open>.ebignore\<close>
  is there, what \<^verbatim>\<open>.gitignore\<close> would parse to has no effect on the archive.
\<close>

theorem ignore_file_precedence:
  "(isfile fs ''.ebignore'' \<longrightarrow>
      fst (ignore_matches env fs s) = parse_gitignore env ''.ebignore''
      \<and> fst (add_files_to_zipfile
                (env\<lparr>parse_gitignore := (parse_gitignore env)(''.gitignore'' := q)\<rparr>) fs z s) =
          fst (add_files_to_zipfile env fs z s))
   \<and> (\<not> isfile fs ''.ebignore'' \<and> isfile fs ''.gitignore'' \<longrightarrow>
        fst (ignore_matches env fs s) = parse_gitignore env ''.gitignore'')
   \<and> (\<not> isfile fs ''.ebignore'' \<and> \<not> isfile fs ''.gitignore'' \<longrightarrow>
        fst (ignore_matches env fs s) = (\<lambda>x. False))"
proof (intro conjI impI)
  assume eb: "isfile fs ''.ebignore''"
  then show "fst (ignore_matches env fs s) = parse_gitignore env ''.ebignore''"
    by (simp add: ignore_matches_def)
  let ?env = "env\<lparr>parse_gitignore := (parse_gitignore env)(''.gitignore'' := q)\<rparr>"
  have r: "ignore_rule ?env fs = ignore_rule env fs"
    using eb by (simp add: ignore_rule_def ignore_matches_def)
  show "fst (add_files_to_zipfile ?env fs z s) = fst (add_files_to_zipfile env fs z s)"
  proof (cases "cwd_listing fs")
    case None
    then show ?thesis by (simp add: add_files_fst_none)
  next
    case (Some es)
    then show ?thesis by (simp add: add_files_fst_entries r)
  qed
next
  assume "\<not> isfile fs ''.ebignore'' \<and> isfile fs ''.gitignore''"
  then show "fst (ignore_matches env fs s) = parse_gitignore env ''.gitignore''"
    by (simp add: ignore_matches_def)
next
  assume "\<not> isfile fs ''.ebignore'' \<and> \<not> isfile fs ''.gitignore''"
  then show "fst (ignore_matches env fs s) = (\<lambda>x. False)"
    by (simp add: ignore_matches_def)
qed

theorem ignore_file_precedence_witness:
  "fst (ignore_matches (example_env (Inr []) (Inr ()) absolute_rules) project_fs initial_state) =
     absolute_rules ''.ebignore''
   \<and> fst (ignore_matches (example_env (Inr []) (Inr ()) absolute_rules) gitignore_fs
            initial_state) = absolute_rules ''.gitignore''
   \<and> fst (ignore_matches (example_env (Inr []) (Inr ()) absolute_rules) empty_fs
            initial_state) = (\<lambda>x. False)"
proof -
  let ?e = "example_env (Inr []) (Inr ()) absolute_rules"
  have p1: "isfile project_fs ''.ebignore''" by code_simp
  have p2: "isfile project_fs ''.gitignore''" by code_simp
  have g1: "\<not> isfile gitignore_fs ''.ebignore''" by code_simp
  have g2: "isfile gitignore_fs ''.gitignore''" by code_simp
  have e1: "\<not> isfile empty_fs ''.ebignore''" by code_simp
  have e2: "\<not> isfile empty_fs ''.gitignore''" by code_simp
  from ignore_file_precedence[of project_fs ?e initial_state] p1
  have a: "fst (ignore_matches ?e project_fs initial_state) = absolute_rules ''.ebignore''"
    by (simp add: example_env_simps)
  from ignore_file_precedence[of gitignore_fs ?e initial_state] g1 g2
  have b: "fst (ignore_matches ?e gitignore_fs initial_state) = absolute_rules ''.gitignore''"
    by (simp add: example_env_simps)
  from ignore_file_precedence[of empty_fs ?e initial_state] e1 e2
  have c: "fst (ignore_matches ?e empty_fs initial_state) = (\<lambda>x. False)"
    by simp
  from a b c show ?thesis by simp
qed

text \<open>
  C9. When the working directory is empty, or the ignore predicate matches every file
  the traversal yields, the builder returns the archive without entries and raises
  nothing; with no version found by the existence check and both services answering
  the upload and the registration with success, the run sends the empty archive,
  registers it and ends with status 0.
\<close>

theorem empty_archive_is_published:
  assumes "cwd_listing fs = Some es"
    and "es = [] \<or> list_all (\<lambda>e. fst (ignore_matches env fs initial_state) (entry_path e))
                     (scantree (getcwd fs) es)"
    and "describe_application_versions env (arg_application a) (arg_label a) = Inr []"
    and "snd (upload_fileobj env (arg_s3_bucket a)
               (arg_application a @ ''/'' @ arg_label a @ ''.zip'') []) = Inr ()"
    and "create_application_version env (arg_application a) (arg_label a) (arg_description a)
           (arg_s3_bucket a) (arg_application a @ ''/'' @ arg_label a @ ''.zip'') = Inr ()"
  shows "fst (add_files_to_zipfile env fs [] s) = Inr []
       \<and> exit_code (script env fs a) = 0
       \<and> traceback (script env fs a) = None
       \<and> calls (final_state (script env fs a)) =
           [DescribeApplicationVersions (arg_application a) (arg_label a),
            UploadFileobj (arg_s3_bucket a)
              (arg_application a @ ''/'' @ arg_label a @ ''.zip'') [],
            CreateApplicationVersion (arg_application a) (arg_label a) (arg_description a)
              (arg_s3_bucket a) (arg_application a @ ''/'' @ arg_label a @ ''.zip'')]"
proof -
  from assms(2) have ig: "list_all (\<lambda>e. ignore_rule env fs (entry_path e))
      (scantree (getcwd fs) es)"
    by (auto simp: ignore_rule_def)
  have ar: "fst (add_files_to_zipfile env fs [] s) = Inr []" for s
    by (simp add: add_files_fst_entries[OF assms(1)] add_entries_all_ignored[OF ig])
  then have ao: "archive_of env fs = Inr []" by (simp add: archive_of_def)
  have mo: "main_outcome env fs a = Inr ()"
    using assms(3,4,5) by (simp add: main_outcome_def register_outcome_def ao s3_key_of_def)
  have mc: "main_calls env fs a =
           [DescribeApplicationVersions (arg_application a) (arg_label a),
            UploadFileobj (arg_s3_bucket a)
              (arg_application a @ ''/'' @ arg_label a @ ''.zip'') [],
            CreateApplicationVersion (arg_application a) (arg_label a) (arg_description a)
              (arg_s3_bucket a) (arg_application a @ ''/'' @ arg_label a @ ''.zip'')]"
    using assms(3,4,5) by (simp add: main_calls_def ao s3_key_of_def)
  from script_run[of env fs a] mo mc ar show ?thesis by simp
qed

theorem empty_archive_is_published_witness:
  "fst (add_files_to_zipfile (example_env (Inr []) (Inr ()) absolute_rules) empty_fs []
          initial_state) = Inr []
   \<and> exit_code (script (example_env (Inr []) (Inr ()) absolute_rules) empty_fs
                  (example_args False False)) = 0
   \<and> calls (final_state (script (example_env (Inr []) (Inr ()) absolute_rules) empty_fs
                           (example_args False False))) =
       [DescribeApplicationVersions ''myapp'' ''v42'',
        UploadFileobj ''releases'' ''myapp/v42.zip'' [],
        CreateApplicationVersion ''myapp'' ''v42'' ''build 42'' ''releases'' ''myapp/v42.zip'']
   \<and> fst (add_files_to_zipfile (example_env (Inr []) (Inr ()) all_rules) project_fs []
            initial_state) = Inr []
   \<and> exit_code (script (example_env (Inr []) (Inr ()) all_rules) project_fs
                  (example_args False False)) = 0
   \<and> traceback (script (example_env (Inr []) (Inr ()) all_rules) project_fs
                  (example_args False False)) = None"
proof -
  let ?a = "example_args False False"
  let ?e1 = "example_env (Inr []) (Inr ()) absolute_rules"
  let ?e2 = "example_env (Inr []) (Inr ()) all_rules"
  have l1: "cwd_listing empty_fs = Some []" by code_simp
  have l2: "cwd_listing project_fs = Some project_listing" by code_simp
  have i2: "project_listing = [] \<or>
      list_all (\<lambda>e. fst (ignore_matches ?e2 project_fs initial_state) (entry_path e))
        (scantree (getcwd project_fs) project_listing)"
    by code_simp
  have d: "describe_application_versions ?e1 (arg_application ?a) (arg_label ?a) = Inr []"
    "describe_application_versions ?e2 (arg_application ?a) (arg_label ?a) = Inr []"
    by (simp_all add: example_env_simps)
  have u: "snd (upload_fileobj ?e1 (arg_s3_bucket ?a)
               (arg_application ?a @ ''/'' @ arg_label ?a @ ''.zip'') []) = Inr ()"
    "snd (upload_fileobj ?e2 (arg_s3_bucket ?a)
               (arg_application ?a @ ''/'' @ arg_label ?a @ ''.zip'') []) = Inr ()"
    by (simp_all add: example_env_simps)
  have c: "create_application_version ?e1 (arg_application ?a) (arg_label ?a)
           (arg_description ?a) (arg_s3_bucket ?a)
           (arg_application ?a @ ''/'' @ arg_label ?a @ ''.zip'') = Inr ()"
    "create_application_version ?e2 (arg_application ?a) (arg_label ?a)
           (arg_description ?a) (arg_s3_bucket ?a)
           (arg_application ?a @ ''/'' @ arg_label ?a @ ''.zip'') = Inr ()"
    by (simp_all add: example_env_simps)
  from empty_archive_is_published[OF l1 _ d(1) u(1) c(1), of initial_state]
  have w1: "fst (add_files_to_zipfile ?e1 empty_fs [] initial_state) = Inr []
     \<and> exit_code (script ?e1 empty_fs ?a) = 0
     \<and> calls (final_state (script ?e1 empty_fs ?a)) =
       [DescribeApplicationVersions ''myapp'' ''v42'',
        UploadFileobj ''releases'' ''myapp/v42.zip'' [],
        CreateApplicationVersion ''myapp'' ''v42'' ''build 42'' ''releases'' ''myapp/v42.zip'']"
    by (simp add: example_args_simps)
  from empty_archive_is_published[OF l2 i2 d(2) u(2) c(2), of initial_state]
  have w2: "fst (add_files_to_zipfile ?e2 project_fs [] initial_state) = Inr []
     \<and> exit_code (script ?e2 project_fs ?a) = 0
     \<and> traceback (script ?e2 project_fs ?a) = None"
    by simp
  from w1 w2 show ?thesis by simp
qed

text \<open>
  C10. Two runs that differ in \<^verbatim>\<open>--debug\<close> alone have the same exit status, the same
  printed output, the same uncaught exception if any, and send the same requests (with
  them the same archive and storage key); the flag reaches the log only.
\<close>

theorem debug_changes_logging_only:
  "exit_code (script env fs (a\<lparr>arg_debug := d\<rparr>)) = exit_code (script env fs a)
   \<and> stdout (script env fs (a\<lparr>arg_debug := d\<rparr>)) = stdout (script env fs a)
   \<and> traceback (script env fs (a\<lparr>arg_debug := d\<rparr>)) = traceback (script env fs a)
   \<and> calls (final_state (script env fs (a\<lparr>arg_debug := d\<rparr>))) =
       calls (final_state (script env fs a))"
proof -
  have ro: "register_outcome env (a\<lparr>arg_debug := d\<rparr>) = register_outcome env a"
    by (simp add: register_outcome_def split: sum.splits exn.splits)
  have mo: "main_outcome env fs (a\<lparr>arg_debug := d\<rparr>) = main_outcome env fs a"
    by (simp add: main_outcome_def ro split: sum.splits)
  have mc: "main_calls env fs (a\<lparr>arg_debug := d\<rparr>) = main_calls env fs a"
    by (simp add: main_calls_def split: sum.splits)
  from script_run[of env fs "a\<lparr>arg_debug := d\<rparr>"] script_run[of env fs a] mo mc
  show ?thesis by simp
qed

theorem debug_changes_logging_only_witness:
  "exit_code (script (example_env (Inr []) (Inr ()) absolute_rules) empty_fs
                (example_args True False)) =
     exit_code (script (example_env (Inr []) (Inr ()) absolute_rules) empty_fs
                (example_args False False))
   \<and> calls (final_state (script (example_env (Inr []) (Inr ()) absolute_rules) empty_fs
                           (example_args True False))) =
       calls (final_state (script (example_env (Inr []) (Inr ()) absolute_rules) empty_fs
                           (example_args False False)))
   \<and> length (log_records (final_state
         (script (example_env (Inr []) (Inr ()) absolute_rules) empty_fs
            (example_args True False)))) = 9
   \<and> length (log_records (final_state
         (script (example_env (Inr []) (Inr ()) absolute_rules) empty_fs
            (example_args False False)))) = 6"
proof -
  let ?e = "example_env (Inr []) (Inr ()) absolute_rules"
  have a: "(example_args False False)\<lparr>arg_debug := True\<rparr> = example_args True False"
    by (simp add: example_args_def)
  from debug_changes_logging_only[where env = ?e and fs = empty_fs
      and a = "example_args False False" and d = True]
  have "exit_code (script ?e empty_fs (example_args True False)) =
          exit_code (script ?e empty_fs (example_args False False))
      \<and> calls (final_state (script ?e empty_fs (example_args True False))) =
          calls (final_state (script ?e empty_fs (example_args False False)))"
    unfolding a by simp
  moreover have "length (log_records (final_state
         (script ?e empty_fs (example_args True False)))) = 9"
    by (simp add: script_final_state empty_fs_log_debug)
  moreover have "length (log_records (final_state
         (script ?e empty_fs (example_args False False)))) = 6"
    by (simp add: script_final_state empty_fs_log_info)
  ultimately show ?thesis by simp
qed


end
